theory Spec2Isabelle
  imports Complex_Main "HOL-Library.Char_ord" "HOL-Library.List_Lexorder"
begin

section \<open>TurtLSystems: grammar expansion, palette and command interpreter\<close>

text \<open>
  A shallow embedding of \<^verbatim>\<open>src/TurtLSystems/turtlsystems.py\<close>. Python strings are
  lists of characters, Python ints are \<^typ>\<open>int\<close>, Python floats are idealised as
  \<^typ>\<open>real\<close> (no rounding, no infinities, no NaN), \<^verbatim>\<open>None\<close> is \<^term>\<open>None\<close>,
  and every exception the code can raise is a value of the type \<open>error\<close>.
\<close>

subsection \<open>Grammar and expansion\<close>

text \<open>
  A rules dict maps strings to strings. \<^verbatim>\<open>rules.get(c, c)\<close> looks up the
  one-character string \<^verbatim>\<open>c\<close> and falls back to \<^verbatim>\<open>c\<close> itself.
\<close>

type_synonym rules = "string \<rightharpoonup> string"

definition dict_get :: "rules \<Rightarrow> string \<Rightarrow> string \<Rightarrow> string" where
  "dict_get d k dflt = (case d k of Some v \<Rightarrow> v | None \<Rightarrow> dflt)"

text \<open>\<^verbatim>\<open>''.join(rules.get(c, c) for c in start)\<close>: the body of the loop of \<^verbatim>\<open>lsystem\<close>.\<close>

primrec join_get :: "rules \<Rightarrow> string \<Rightarrow> string" where
  "join_get rules [] = []"
| "join_get rules (c # cs) = dict_get rules [c] [c] @ join_get rules cs"

text \<open>\<^verbatim>\<open>for _ in range(n): start = ...\<close> with the number of rounds left as a counter.\<close>

primrec iterate :: "nat \<Rightarrow> rules \<Rightarrow> string \<Rightarrow> string" where
  "iterate 0 rules start = start"
| "iterate (Suc n) rules start = iterate n rules (join_get rules start)"

text \<open>\<^verbatim>\<open>range(level)\<close> is empty for \<^verbatim>\<open>level <= 0\<close> and has \<^verbatim>\<open>level\<close> elements otherwise.\<close>

definition lsystem :: "string \<Rightarrow> rules \<Rightarrow> int \<Rightarrow> string" where
  "lsystem start rules level = iterate (nat level) rules start"

text \<open>
  \<^verbatim>\<open>str.split()\<close> without arguments splits at runs of whitespace and yields no empty
  token. On the 8-bit characters of the model, Python's whitespace is the code points
  9 to 13, 28 to 32, 133 and 160.
\<close>

definition isspace :: "char \<Rightarrow> bool" where
  "isspace c = (let n = (of_char c :: nat) in
     (9 \<le> n \<and> n \<le> 13) \<or> (28 \<le> n \<and> n \<le> 32) \<or> n = 133 \<or> n = 160)"

text \<open>\<open>split_acc cur s\<close>: \<open>cur\<close> is the token being read, reversed.\<close>

fun split_acc :: "string \<Rightarrow> string \<Rightarrow> string list" where
  "split_acc cur [] = (if cur = [] then [] else [rev cur])"
| "split_acc cur (c # cs) =
     (if isspace c then (if cur = [] then split_acc [] cs else rev cur # split_acc [] cs)
      else split_acc (c # cur) cs)"

definition str_split :: "string \<Rightarrow> string list" where
  "str_split s = split_acc [] s"

text \<open>The slices \<^verbatim>\<open>xs[::2]\<close> and \<^verbatim>\<open>xs[1::2]\<close>.\<close>

fun slice_even :: "'a list \<Rightarrow> 'a list" where
  "slice_even [] = []"
| "slice_even [x] = [x]"
| "slice_even (x # y # xs) = x # slice_even xs"

fun slice_odd :: "'a list \<Rightarrow> 'a list" where
  "slice_odd [] = []"
| "slice_odd [x] = []"
| "slice_odd (x # y # xs) = y # slice_odd xs"

text \<open>\<^verbatim>\<open>dict(pairs)\<close>: pairs are inserted in order, a later key overwrites an earlier one.\<close>

primrec dict_of :: "(string \<times> string) list \<Rightarrow> rules \<Rightarrow> rules" where
  "dict_of [] d = d"
| "dict_of (kv # kvs) d = dict_of kvs (d(fst kv \<mapsto> snd kv))"

text \<open>The argument of \<^verbatim>\<open>make_rules\<close> is a \<^verbatim>\<open>Union[str, Dict[str, str]]\<close>.\<close>

datatype rules_arg = Rules_str string | Rules_dict rules

fun make_rules :: "rules_arg \<Rightarrow> rules" where
  "make_rules (Rules_str s) =
     (let split = str_split s in dict_of (zip (slice_even split) (slice_odd split)) Map.empty)"
| "make_rules (Rules_dict d) = d"

subsection \<open>Palette\<close>

type_synonym color = "int \<times> int \<times> int"

definition DEFAULT_COLORS :: "color list" where
  "DEFAULT_COLORS =
     [(255, 255, 255), (128, 128, 128), (255, 0, 0), (255, 128, 0), (255, 255, 0),
      (0, 255, 0), (0, 255, 255), (0, 0, 255), (128, 0, 255), (255, 0, 255)]"

text \<open>\<^verbatim>\<open>clamp(value, minimum=0, maximum=255)\<close>; every call site uses the defaults.\<close>

definition clamp :: "int \<Rightarrow> int \<Rightarrow> int \<Rightarrow> int" where
  "clamp v minimum maximum = max minimum (min v maximum)"



subsection \<open>The turtle and the screen\<close>

text \<open>
  The turtle graphics module is not part of the repository. The model keeps what the
  interpreter reads back from it (position, heading, pen state, speed, pen size) and the
  sequence of the calls made to the turtle and to the canvas, in order. How far a
  \<^verbatim>\<open>forward\<close> moves and where a \<^verbatim>\<open>left\<close> or \<^verbatim>\<open>right\<close> turns to depend on the
  mode and the angle unit of the screen: they are parameters of the model, as are the
  canvas size and the background colour that a frame records.
\<close>

datatype call =
    Pensize real | Pencolor color | Fillcolor color | Pendown | Penup | Forward real
  | Left real | Right real | Begin_fill | End_fill | Dot color | Clear | Speed int
  | Setposition "real \<times> real" | Setheading real | Postscript "string \<times> nat"

record turtle =
  pos :: "real \<times> real"
  hdg :: real
  isdown :: bool
  speed :: int
  pensize :: real
  calls :: "call list"

record screen =
  forward_from :: "real \<times> real \<Rightarrow> real \<Rightarrow> real \<Rightarrow> real \<times> real"
  left_from :: "real \<Rightarrow> real \<Rightarrow> real"
  right_from :: "real \<Rightarrow> real \<Rightarrow> real"
  canvas_size :: "int \<times> int"
  bgcolor :: color

definition call_log :: "call \<Rightarrow> turtle \<Rightarrow> turtle" where
  "call_log c t = t\<lparr>calls := calls t @ [c]\<rparr>"

definition t_pensize :: "real \<Rightarrow> turtle \<Rightarrow> turtle" where
  "t_pensize w t = call_log (Pensize w) (t\<lparr>pensize := w\<rparr>)"

definition t_pencolor :: "color \<Rightarrow> turtle \<Rightarrow> turtle" where
  "t_pencolor c t = call_log (Pencolor c) t"

definition t_fillcolor :: "color \<Rightarrow> turtle \<Rightarrow> turtle" where
  "t_fillcolor c t = call_log (Fillcolor c) t"

definition t_pendown :: "turtle \<Rightarrow> turtle" where
  "t_pendown t = call_log Pendown (t\<lparr>isdown := True\<rparr>)"

definition t_penup :: "turtle \<Rightarrow> turtle" where
  "t_penup t = call_log Penup (t\<lparr>isdown := False\<rparr>)"

definition t_forward :: "screen \<Rightarrow> real \<Rightarrow> turtle \<Rightarrow> turtle" where
  "t_forward scr d t = call_log (Forward d) (t\<lparr>pos := forward_from scr (pos t) (hdg t) d\<rparr>)"

definition t_left :: "screen \<Rightarrow> real \<Rightarrow> turtle \<Rightarrow> turtle" where
  "t_left scr a t = call_log (Left a) (t\<lparr>hdg := left_from scr (hdg t) a\<rparr>)"

definition t_right :: "screen \<Rightarrow> real \<Rightarrow> turtle \<Rightarrow> turtle" where
  "t_right scr a t = call_log (Right a) (t\<lparr>hdg := right_from scr (hdg t) a\<rparr>)"

text \<open>
  \<^verbatim>\<open>t.speed(s)\<close> is only called with 0 and with a value that \<^verbatim>\<open>t.speed()\<close> returned,
  which the turtle stores as they are.
\<close>

definition t_speed :: "int \<Rightarrow> turtle \<Rightarrow> turtle" where
  "t_speed s t = call_log (Speed s) (t\<lparr>speed := s\<rparr>)"

definition t_setposition :: "real \<times> real \<Rightarrow> turtle \<Rightarrow> turtle" where
  "t_setposition xy t = call_log (Setposition xy) (t\<lparr>pos := xy\<rparr>)"

definition t_setheading :: "real \<Rightarrow> turtle \<Rightarrow> turtle" where
  "t_setheading h t = call_log (Setheading h) (t\<lparr>hdg := h\<rparr>)"

text \<open>
  \<^verbatim>\<open>orient\<close>: a position tuple is truthy whatever its coordinates, so
  \<^verbatim>\<open>if position:\<close> tests for \<^verbatim>\<open>None\<close> only.
\<close>

definition orient :: "turtle \<Rightarrow> (real \<times> real) option \<Rightarrow> real option \<Rightarrow> turtle" where
  "orient t position heading =
     (let speed = speed t;
          down = isdown t;
          t = t_penup t;
          t = t_speed 0 t;
          t = (case position of Some xy \<Rightarrow> t_setposition xy t | None \<Rightarrow> t);
          t = (case heading of Some h \<Rightarrow> t_setheading h t | None \<Rightarrow> t);
          t = t_speed speed t
      in if down then t_pendown t else t)"

subsection \<open>The interpreter state\<close>

text \<open>The class \<^verbatim>\<open>State\<close>, a snapshot pushed on the stack; its fields carry the prefix \<open>st_\<close>.\<close>

record State =
  st_position :: "real \<times> real"
  st_heading :: real
  st_angle :: real
  st_length :: real
  st_thickness :: real
  st_pen_color :: "color option"
  st_fill_color :: "color option"
  st_swap_signs :: bool
  st_swap_cases :: bool
  st_modify_fill :: bool

text \<open>
  A stored frame \<^verbatim>\<open>(eps, size, background)\<close>; the file
  \<^verbatim>\<open>drawdir/frame<n>.eps\<close> is the pair of the directory and \<open>n\<close>.
\<close>

type_synonym frame = "(string \<times> nat) \<times> (int \<times> int) \<times> color"

text \<open>The keyword arguments of \<^verbatim>\<open>run\<close> that the loop does not rebind.\<close>

record params =
  colors :: "color option list"
  full_circle :: real
  position :: "real \<times> real"
  heading :: real
  initial_angle :: real
  initial_length :: real
  initial_thickness :: real
  angle_increment :: real
  length_increment :: real
  length_scalar :: real
  thickness_increment :: real
  color_increments :: "int \<times> int \<times> int"
  gif :: "string option"
  draws_per_frame :: int
  max_frames :: int
  drawdir :: "string option"

text \<open>
  The variables that \<^verbatim>\<open>run\<close> and its closures rebind, and the turtle. The top of the
  stack (the last element of the Python list) is the head of \<open>stack\<close>.
\<close>

record state =
  angle :: real
  length' :: real
  thickness :: real
  pen_color :: "color option"
  fill_color :: "color option"
  swap_signs :: bool
  swap_cases :: bool
  modify_fill :: bool
  stack :: "State list"
  gif_data :: "frame list"
  draws :: int
  frames_attempted :: int
  turtle :: turtle

datatype error = ZeroDivisionError | IndexError | TypeError

text \<open>
  What processing one symbol leads to: the loop goes on, the loop is left by
  \<^verbatim>\<open>break\<close>, or an exception is raised, with the state reached at that point.
\<close>

datatype outcome = Next (state_of: state) | Break (state_of: state) | Fault error (state_of: state)

text \<open>\<^verbatim>\<open>if gif:\<close> on an \<^verbatim>\<open>Optional[str]\<close>: \<^verbatim>\<open>None\<close> and the empty string are falsy.\<close>

definition truthy :: "string option \<Rightarrow> bool" where
  "truthy g = (case g of None \<Rightarrow> False | Some s \<Rightarrow> s \<noteq> [])"

text \<open>
  \<^verbatim>\<open>save_frame\<close>. The path \<^verbatim>\<open>drawdir / ...\<close> raises a \<^verbatim>\<open>TypeError\<close> when
  \<^verbatim>\<open>drawdir\<close> is \<^verbatim>\<open>None\<close>; \<^verbatim>\<open>save_eps\<close> writes the canvas to the file and returns
  its size.
\<close>

definition save_frame :: "screen \<Rightarrow> params \<Rightarrow> state \<Rightarrow> outcome" where
  "save_frame scr p s =
     (let s = s\<lparr>frames_attempted := frames_attempted s + 1\<rparr> in
      if int (length (gif_data s)) < max_frames p then
        (case drawdir p of
           None \<Rightarrow> Fault TypeError s
         | Some d \<Rightarrow>
             (let eps = (d, length (gif_data s)) in
              Next (s\<lparr>turtle := call_log (Postscript eps) (turtle s),
                      gif_data := gif_data s @ [(eps, canvas_size scr, bgcolor scr)]\<rparr>)))
      else Next s)"

text \<open>\<^verbatim>\<open>gif_handler\<close>; \<^verbatim>\<open>draws % draws_per_frame\<close> raises when the divisor is 0.\<close>

definition gif_handler :: "screen \<Rightarrow> params \<Rightarrow> state \<Rightarrow> outcome" where
  "gif_handler scr p s =
     (if truthy (gif p) then
        (let s = s\<lparr>draws := draws s + 1\<rparr> in
         if draws_per_frame p = 0 then Fault ZeroDivisionError s
         else if draws s mod draws_per_frame p = 0 then save_frame scr p s
         else Next s)
      else Next s)"

definition set_pensize :: "state \<Rightarrow> state" where
  "set_pensize s = s\<lparr>turtle := t_pensize (max 0 (thickness s)) (turtle s)\<rparr>"

definition set_color :: "color option \<Rightarrow> state \<Rightarrow> state" where
  "set_color color s =
     (if modify_fill s then
        (let s = s\<lparr>modify_fill := False, fill_color := color\<rparr> in
         case fill_color s of Some c \<Rightarrow> s\<lparr>turtle := t_fillcolor c (turtle s)\<rparr> | None \<Rightarrow> s)
      else
        (let s = s\<lparr>pen_color := color\<rparr> in
         case pen_color s of Some c \<Rightarrow> s\<lparr>turtle := t_pencolor c (turtle s)\<rparr> | None \<Rightarrow> s))"

definition tuple_list :: "int \<times> int \<times> int \<Rightarrow> int list" where
  "tuple_list c = (case c of (r, g, b) \<Rightarrow> [r, g, b])"

definition increment_color :: "params \<Rightarrow> nat \<Rightarrow> bool \<Rightarrow> state \<Rightarrow> state" where
  "increment_color p channel decrement s =
     (let color = (if modify_fill s then fill_color s else pen_color s) in
      case color of
        None \<Rightarrow> s
      | Some col \<Rightarrow>
          (let amount = (if decrement then - 1 else 1) * tuple_list (color_increments p) ! channel;
               lst = tuple_list col;
               lst = lst[channel := clamp (lst ! channel + amount) 0 255]
           in set_color (Some (lst ! 0, lst ! 1, lst ! 2)) s))"


subsection \<open>Dispatch\<close>

text \<open>
  Python's \<^verbatim>\<open>str.isalpha\<close>, \<^verbatim>\<open>isupper\<close>, \<^verbatim>\<open>lower\<close> and \<^verbatim>\<open>upper\<close> on the 8-bit
  characters of the model (Latin-1). \<^verbatim>\<open>upper\<close> of the sharp s (223) is the two-character
  string \<^verbatim>\<open>SS\<close>; \<^verbatim>\<open>upper\<close> of 181 and of 255 is a character beyond 255, which no
  branch of the dispatch matches: the model leaves these two as they are, which no branch
  matches either.
\<close>

definition isalpha :: "char \<Rightarrow> bool" where
  "isalpha c = (let n = (of_char c :: nat) in
     (65 \<le> n \<and> n \<le> 90) \<or> (97 \<le> n \<and> n \<le> 122) \<or> n = 170 \<or> n = 181 \<or> n = 186
     \<or> (192 \<le> n \<and> n \<le> 214) \<or> (216 \<le> n \<and> n \<le> 246) \<or> (248 \<le> n \<and> n \<le> 255))"

definition isupper :: "char \<Rightarrow> bool" where
  "isupper c = (let n = (of_char c :: nat) in
     (65 \<le> n \<and> n \<le> 90) \<or> (192 \<le> n \<and> n \<le> 214) \<or> (216 \<le> n \<and> n \<le> 222))"

definition lower :: "char \<Rightarrow> string" where
  "lower c = (if isupper c then [char_of ((of_char c :: nat) + 32)] else [c])"

definition upper :: "char \<Rightarrow> string" where
  "upper c = (let n = (of_char c :: nat) in
     if (97 \<le> n \<and> n \<le> 122) \<or> (224 \<le> n \<and> n \<le> 246) \<or> (248 \<le> n \<and> n \<le> 254)
     then [char_of (n - 32)]
     else if n = 223 then ''SS''
     else [c])"

text \<open>
  The bodies of the \<^verbatim>\<open>if\<close>/\<^verbatim>\<open>elif\<close> chain of the loop, one constructor for each, with
  \<open>Ignore\<close> for a symbol that no branch matches.
\<close>

datatype cmd =
    Draw | Move | Length_reset | Length_inc | Length_dec | Length_mul | Length_div
  | Plus | Minus | Swap_signs | About_face | Angle_reset | Angle_inc | Angle_dec
  | Thickness_reset | Thickness_inc | Thickness_dec
  | Digit nat | Modify_fill | Increment nat bool
  | Begin_fill_cmd | End_fill_cmd | Dot_cmd | Swap_cases | Home_position | Home_heading
  | Clear_cmd | Push | Pop | Escape | Ignore

text \<open>\<^verbatim>\<open>int(c)\<close> on the one-character strings from \<^verbatim>\<open>0\<close> to \<^verbatim>\<open>9\<close>.\<close>

definition digit_value :: "string \<Rightarrow> nat" where
  "digit_value c = (of_char (hd c) :: nat) - 48"

text \<open>
  The conditions of the chain, in the order of the source. \<^verbatim>\<open>c\<close> is a Python string and
  \<^verbatim>\<open><=\<close> compares strings lexicographically by code point.
\<close>

definition decode :: "string \<Rightarrow> cmd" where
  "decode c =
    (if ''A'' \<le> c \<and> c \<le> ''Z'' then Draw
     else if ''a'' \<le> c \<and> c \<le> ''z'' then Move
     else if c = ''_'' then Length_reset
     else if c = ''^'' then Length_inc
     else if c = ''%'' then Length_dec
     else if c = ''*'' then Length_mul
     else if c = ''/'' then Length_div
     else if c = ''+'' then Plus
     else if c = ''-'' then Minus
     else if c = ''&'' then Swap_signs
     else if c = ''|'' then About_face
     else if c = ''~'' then Angle_reset
     else if c = '')'' then Angle_inc
     else if c = ''('' then Angle_dec
     else if c = ''='' then Thickness_reset
     else if c = ''>'' then Thickness_inc
     else if c = ''<'' then Thickness_dec
     else if ''0'' \<le> c \<and> c \<le> ''9'' then Digit (digit_value c)
     else if c = ''#'' then Modify_fill
     else if c = ''.'' then Increment 0 False
     else if c = '','' then Increment 0 True
     else if c = '':'' then Increment 1 False
     else if c = '';'' then Increment 1 True
     else if c = ''!'' then Increment 2 False
     else if c = ''?'' then Increment 2 True
     else if c = ''{'' then Begin_fill_cmd
     else if c = ''}'' then End_fill_cmd
     else if c = ''@'' then Dot_cmd
     else if c = ''`'' then Swap_cases
     else if c = [CHR 0x22] then Home_position
     else if c = [CHR 0x27] then Home_heading
     else if c = ''$'' then Clear_cmd
     else if c = ''['' then Push
     else if c = '']'' then Pop
     else if c = [CHR 0x5C] then Escape
     else Ignore)"

text \<open>The bodies of the branches.\<close>

fun exec :: "screen \<Rightarrow> params \<Rightarrow> cmd \<Rightarrow> state \<Rightarrow> outcome" where
  "exec scr p Draw s =
     (let t = (if pen_color s \<noteq> None \<and> pensize (turtle s) \<noteq> 0
               then t_pendown (turtle s) else t_penup (turtle s));
          t = t_forward scr (length' s) t
      in gif_handler scr p (s\<lparr>turtle := t\<rparr>))"
| "exec scr p Move s =
     Next (s\<lparr>turtle := t_forward scr (length' s) (t_penup (turtle s))\<rparr>)"
| "exec scr p Length_reset s = Next (s\<lparr>length' := initial_length p\<rparr>)"
| "exec scr p Length_inc s = Next (s\<lparr>length' := length' s + length_increment p\<rparr>)"
| "exec scr p Length_dec s = Next (s\<lparr>length' := length' s - length_increment p\<rparr>)"
| "exec scr p Length_mul s = Next (s\<lparr>length' := length' s * length_scalar p\<rparr>)"
| "exec scr p Length_div s =
     (if length_scalar p = 0 then Fault ZeroDivisionError s
      else Next (s\<lparr>length' := length' s / length_scalar p\<rparr>))"
| "exec scr p Plus s =
     Next (s\<lparr>turtle := (if swap_signs s then t_right scr (angle s) (turtle s)
                          else t_left scr (angle s) (turtle s))\<rparr>)"
| "exec scr p Minus s =
     Next (s\<lparr>turtle := (if swap_signs s then t_left scr (angle s) (turtle s)
                          else t_right scr (angle s) (turtle s))\<rparr>)"
| "exec scr p Swap_signs s = Next (s\<lparr>swap_signs := \<not> swap_signs s\<rparr>)"
| "exec scr p About_face s = Next (s\<lparr>turtle := t_right scr (full_circle p / 2) (turtle s)\<rparr>)"
| "exec scr p Angle_reset s = Next (s\<lparr>angle := initial_angle p\<rparr>)"
| "exec scr p Angle_inc s = Next (s\<lparr>angle := angle s + angle_increment p\<rparr>)"
| "exec scr p Angle_dec s = Next (s\<lparr>angle := angle s - angle_increment p\<rparr>)"
| "exec scr p Thickness_reset s = Next (set_pensize (s\<lparr>thickness := initial_thickness p\<rparr>))"
| "exec scr p Thickness_inc s =
     Next (set_pensize (s\<lparr>thickness := thickness s + thickness_increment p\<rparr>))"
| "exec scr p Thickness_dec s =
     Next (set_pensize (s\<lparr>thickness := thickness s - thickness_increment p\<rparr>))"
| "exec scr p (Digit n) s =
     (if n < length (colors p) then Next (set_color (colors p ! n) s)
      else Fault IndexError s)"
| "exec scr p Modify_fill s = Next (s\<lparr>modify_fill := True\<rparr>)"
| "exec scr p (Increment channel decrement) s = Next (increment_color p channel decrement s)"
| "exec scr p Begin_fill_cmd s =
     Next (if fill_color s \<noteq> None then s\<lparr>turtle := call_log Begin_fill (turtle s)\<rparr> else s)"
| "exec scr p End_fill_cmd s =
     gif_handler scr p
       (if fill_color s \<noteq> None then s\<lparr>turtle := call_log End_fill (turtle s)\<rparr> else s)"
| "exec scr p Dot_cmd s =
     gif_handler scr p
       (case fill_color s of Some c \<Rightarrow> s\<lparr>turtle := call_log (Dot c) (turtle s)\<rparr> | None \<Rightarrow> s)"
| "exec scr p Swap_cases s = Next (s\<lparr>swap_cases := \<not> swap_cases s\<rparr>)"
| "exec scr p Home_position s = Next (s\<lparr>turtle := orient (turtle s) (Some (position p)) None\<rparr>)"
| "exec scr p Home_heading s = Next (s\<lparr>turtle := orient (turtle s) None (Some (heading p))\<rparr>)"
| "exec scr p Clear_cmd s = Next (s\<lparr>stack := [], turtle := call_log Clear (turtle s)\<rparr>)"
| "exec scr p Push s =
     Next (s\<lparr>stack :=
       \<lparr>st_position = pos (turtle s), st_heading = hdg (turtle s), st_angle = angle s,
        st_length = length' s, st_thickness = thickness s, st_pen_color = pen_color s,
        st_fill_color = fill_color s, st_swap_signs = swap_signs s,
        st_swap_cases = swap_cases s, st_modify_fill = modify_fill s\<rparr> # stack s\<rparr>)"
| "exec scr p Pop s =
     (case stack s of
        [] \<Rightarrow> Next s
      | state # rest \<Rightarrow>
          Next (s\<lparr>stack := rest,
                  turtle := orient (turtle s) (Some (st_position state)) (Some (st_heading state)),
                  angle := st_angle state, length' := st_length state,
                  swap_signs := st_swap_signs state, swap_cases := st_swap_cases state,
                  modify_fill := st_modify_fill state,
                  pen_color := st_pen_color state, fill_color := st_fill_color state\<rparr>))"
| "exec scr p Escape s = Break s"
| "exec scr p Ignore s = Next s"

text \<open>One round of the loop: the case swap, then the dispatch.\<close>

definition step :: "screen \<Rightarrow> params \<Rightarrow> char \<Rightarrow> state \<Rightarrow> outcome" where
  "step scr p c s =
     (let c = (if swap_cases s \<and> isalpha c then (if isupper c then lower c else upper c)
               else [c])
      in exec scr p (decode c) s)"

text \<open>\<^verbatim>\<open>for c in string\<close>.\<close>

fun loop :: "screen \<Rightarrow> params \<Rightarrow> string \<Rightarrow> state \<Rightarrow> outcome" where
  "loop scr p [] s = Next s"
| "loop scr p (c # cs) s =
     (case step scr p c s of
        Next s' \<Rightarrow> loop scr p cs s'
      | Break s' \<Rightarrow> Break s'
      | Fault e s' \<Rightarrow> Fault e s')"

text \<open>
  What a call of \<^verbatim>\<open>run\<close> leads to: it returns, and the model keeps the whole final state
  (the Python function returns \<^verbatim>\<open>gif_data\<close>), or it raises, and the turtle is what is
  left.
\<close>

datatype result = is_Returned: Returned (final: state) | Raised error turtle

text \<open>The statements before the loop; \<^verbatim>\<open>colors[0], colors[1]\<close> raises on a short tuple.\<close>

definition prologue :: "screen \<Rightarrow> params \<Rightarrow> turtle \<Rightarrow> error \<times> turtle + state" where
  "prologue scr p t =
     (if length (colors p) < 2 then Inl (IndexError, t)
      else
        (let s = \<lparr>angle = initial_angle p, length' = initial_length p,
                  thickness = initial_thickness p,
                  pen_color = colors p ! 0, fill_color = colors p ! 1,
                  swap_signs = False, swap_cases = False, modify_fill = False,
                  stack = [], gif_data = [], draws = 0, frames_attempted = 0, turtle = t\<rparr>;
             s = set_pensize s;
             s = (case pen_color s of Some c \<Rightarrow> s\<lparr>turtle := t_pencolor c (turtle s)\<rparr> | None \<Rightarrow> s);
             s = (case fill_color s of Some c \<Rightarrow> s\<lparr>turtle := t_fillcolor c (turtle s)\<rparr> | None \<Rightarrow> s)
         in case (if truthy (gif p) then save_frame scr p s else Next s) of
              Next s' \<Rightarrow> Inr s'
            | Break s' \<Rightarrow> Inr s'
            | Fault e s' \<Rightarrow> Inl (e, turtle s')))"

text \<open>The statements after the loop.\<close>

definition epilogue :: "screen \<Rightarrow> params \<Rightarrow> state \<Rightarrow> result" where
  "epilogue scr p s =
     (if truthy (gif p) then
        (if draws_per_frame p = 0 then Raised ZeroDivisionError (turtle s)
         else if draws s mod draws_per_frame p \<noteq> 0 then
           (case save_frame scr p s of
              Next s' \<Rightarrow> Returned s'
            | Break s' \<Rightarrow> Returned s'
            | Fault e s' \<Rightarrow> Raised e (turtle s'))
         else Returned s)
      else Returned s)"

definition run :: "screen \<Rightarrow> params \<Rightarrow> turtle \<Rightarrow> string \<Rightarrow> result" where
  "run scr p t string =
     (case prologue scr p t of
        Inl (e, t') \<Rightarrow> Raised e t'
      | Inr s \<Rightarrow>
          (case loop scr p string s of
             Next s' \<Rightarrow> epilogue scr p s'
           | Break s' \<Rightarrow> epilogue scr p s'
           | Fault e s' \<Rightarrow> Raised e (turtle s')))"


subsection \<open>Notions used in the properties\<close>


text \<open>
  Concrete inputs for the examples: a screen on which the turtle moves along the x axis
  and headings add up, the arguments that \<^verbatim>\<open>draw\<close> passes by default (with a gif
  requested, a frame every second draw), and a fresh turtle.
\<close>

definition screen0 :: screen where
  "screen0 = \<lparr>forward_from = (\<lambda>xy h d. (fst xy + d, snd xy)), left_from = (\<lambda>h a. h + a),
     right_from = (\<lambda>h a. h - a), canvas_size = (600, 600), bgcolor = (0, 0, 0)\<rparr>"

definition params0 :: params where
  "params0 = \<lparr>colors = map Some DEFAULT_COLORS, full_circle = 360, position = (0, 0),
     heading = 0, initial_angle = 90, initial_length = 10, initial_thickness = 1,
     angle_increment = 15, length_increment = 5, length_scalar = 2, thickness_increment = 1,
     color_increments = (1, 1, 1), gif = Some ''out'', draws_per_frame = 2, max_frames = 100,
     drawdir = Some ''tmp''\<rparr>"

definition turtle0 :: turtle where
  "turtle0 = \<lparr>pos = (0, 0), hdg = 0, isdown = True, speed = 0, pensize = 1, calls = []\<rparr>"

text \<open>The stroke widths passed to \<^verbatim>\<open>t.pensize\<close>, in the order of the calls.\<close>

fun pensizes :: "call list \<Rightarrow> real list" where
  "pensizes [] = []"
| "pensizes (Pensize w # cs) = w # pensizes cs"
| "pensizes (c # cs) = pensizes cs"

definition widths :: "state \<Rightarrow> real list" where
  "widths s = pensizes (calls (turtle s))"

text \<open>
  The thickness as the specification describes it, to compare the interpreter with: the
  values that the thickness takes, one for each thickness symbol up to the first backslash,
  by unbounded arithmetic from the value \<open>th\<close>: \<^verbatim>\<open>>\<close> adds the increment, \<^verbatim>\<open><\<close>
  subtracts it, \<^verbatim>\<open>=\<close> resets to the initial thickness.
\<close>

primrec spec_thickness :: "params \<Rightarrow> real \<Rightarrow> string \<Rightarrow> real list" where
  "spec_thickness p th [] = []"
| "spec_thickness p th (c # cs) =
     (if c = CHR 0x5C then []
      else if c = CHR ''>'' then
        (th + thickness_increment p) # spec_thickness p (th + thickness_increment p) cs
      else if c = CHR ''<'' then
        (th - thickness_increment p) # spec_thickness p (th - thickness_increment p) cs
      else if c = CHR ''='' then initial_thickness p # spec_thickness p (initial_thickness p) cs
      else spec_thickness p th cs)"

text \<open>
  The colour-affecting symbols, and the colour that the specification gives to the target
  of such a symbol, from the current colour \<open>cur\<close> of the target: a digit selects the
  palette slot; \<^verbatim>\<open>.\<close> \<^verbatim>\<open>,\<close> increment and decrement the red channel, \<^verbatim>\<open>:\<close> \<^verbatim>\<open>;\<close> the
  green channel, \<^verbatim>\<open>!\<close> \<^verbatim>\<open>?\<close> the blue channel, clamped to 0..255, and leave no-colour as
  it is.
\<close>

definition is_digit :: "char \<Rightarrow> bool" where
  "is_digit c = (CHR ''0'' \<le> c \<and> c \<le> CHR ''9'')"

definition color_symbol :: "char \<Rightarrow> bool" where
  "color_symbol c = (is_digit c \<or> c \<in> set ''.,:;!?'')"

definition spec_color :: "params \<Rightarrow> char \<Rightarrow> color option \<Rightarrow> color option" where
  "spec_color p c cur =
     (if is_digit c then colors p ! ((of_char c :: nat) - 48)
      else case cur of
        None \<Rightarrow> None
      | Some (r, g, b) \<Rightarrow>
          (case color_increments p of (ri, gi, bi) \<Rightarrow>
             if c = CHR ''.'' then Some (clamp (r + ri) 0 255, g, b)
             else if c = CHR '','' then Some (clamp (r - ri) 0 255, g, b)
             else if c = CHR '':'' then Some (r, clamp (g + gi) 0 255, b)
             else if c = CHR '';'' then Some (r, clamp (g - gi) 0 255, b)
             else if c = CHR ''!'' then Some (r, g, clamp (b + bi) 0 255)
             else if c = CHR ''?'' then Some (r, g, clamp (b - bi) 0 255)
             else cur))"

text \<open>The three variables that the colour symbols work on.\<close>

definition cols :: "state \<Rightarrow> color option \<times> color option \<times> bool" where
  "cols s = (pen_color s, fill_color s, modify_fill s)"

text \<open>The triple that \<^verbatim>\<open>increment_color\<close> hands to \<^verbatim>\<open>set_color\<close>.\<close>

definition bump :: "params \<Rightarrow> nat \<Rightarrow> bool \<Rightarrow> color \<Rightarrow> color" where
  "bump p channel decrement col =
     (let amount = (if decrement then - 1 else 1) * tuple_list (color_increments p) ! channel;
          lst = tuple_list col;
          lst = lst[channel := clamp (lst ! channel + amount) 0 255]
      in (lst ! 0, lst ! 1, lst ! 2))"

text \<open>
  Bracket balance: \<open>balanced n w\<close> holds when \<open>w\<close>, read with \<open>n\<close> brackets open, never
  closes a bracket that is not open and ends with none open.
\<close>

fun balanced :: "nat \<Rightarrow> string \<Rightarrow> bool" where
  "balanced n [] = (n = 0)"
| "balanced n (c # cs) =
     (if c = CHR ''['' then balanced (Suc n) cs
      else if c = CHR '']'' then 0 < n \<and> balanced (n - 1) cs
      else balanced n cs)"

text \<open>The \<^verbatim>\<open>State\<close> that the branch of \<^verbatim>\<open>[\<close> pushes.\<close>

definition snapshot :: "state \<Rightarrow> State" where
  "snapshot s =
     \<lparr>st_position = pos (turtle s), st_heading = hdg (turtle s), st_angle = angle s,
      st_length = length' s, st_thickness = thickness s, st_pen_color = pen_color s,
      st_fill_color = fill_color s, st_swap_signs = swap_signs s,
      st_swap_cases = swap_cases s, st_modify_fill = modify_fill s\<rparr>"

text \<open>The state in which the run on the empty command string ends.\<close>

definition state0 :: state where
  "state0 = final (run screen0 params0 turtle0 [])"

section \<open>Properties\<close>

subsection \<open>Expansion\<close>

lemma iterate_Suc: "iterate (Suc n) r s = join_get r (iterate n r s)"
  by (induction n arbitrary: s) simp_all

lemma join_get_concat:
  "join_get r s = concat (map (\<lambda>c. case r [c] of Some v \<Rightarrow> v | None \<Rightarrow> [c]) s)"
  by (induction s) (simp_all add: dict_get_def)

text \<open>
  C3. Level 0 returns the start string unchanged. Each further level is one pass over the
  result of the level before, and a pass replaces every character of the string it is
  given by its grammar entry, or by itself when it has none: the result of a pass is the
  concatenation of the replacements of the characters of the pre-pass string, so nothing
  produced within a pass is rewritten in that pass. In particular level 2 is one pass
  over the level-1 result.
\<close>

theorem lsystem_levels:
  assumes "0 \<le> level"
  shows "lsystem s r 0 = s
    \<and> lsystem s r (level + 1) = join_get r (lsystem s r level)
    \<and> lsystem s r 2 = join_get r (lsystem s r 1)
    \<and> join_get r s = concat (map (\<lambda>c. case r [c] of Some v \<Rightarrow> v | None \<Rightarrow> [c]) s)"
proof -
  have "nat (level + 1) = Suc (nat level)" using assms by simp
  then have "lsystem s r (level + 1) = join_get r (lsystem s r level)"
    by (simp add: lsystem_def iterate_Suc del: iterate.simps)
  moreover have "lsystem s r 2 = join_get r (lsystem s r 1)"
    by (simp add: lsystem_def numeral_2_eq_2)
  ultimately show ?thesis by (simp add: lsystem_def join_get_concat)
qed

theorem lsystem_levels_witness:
  "(0::int) \<le> 1 \<and> lsystem ''F'' (Map.empty(''F'' \<mapsto> ''F+F-F-F+F'')) 0 = ''F''
   \<and> lsystem ''F'' (Map.empty(''F'' \<mapsto> ''F+F-F-F+F'')) 1 = ''F+F-F-F+F''
   \<and> lsystem ''F'' (Map.empty(''F'' \<mapsto> ''F+F-F-F+F'')) (1 + 1)
      = join_get (Map.empty(''F'' \<mapsto> ''F+F-F-F+F'')) ''F+F-F-F+F''"
  using lsystem_levels [of 1 "''F''" "Map.empty(''F'' \<mapsto> ''F+F-F-F+F'')"]
  by (simp add: lsystem_def dict_get_def)

text \<open>
  C10. For a negative level the loop of \<^verbatim>\<open>lsystem\<close> runs no pass: the function is total
  and returns the start string unchanged.
\<close>

theorem lsystem_negative_level:
  "level < 0 \<Longrightarrow> lsystem s r level = s"
  by (simp add: lsystem_def)

theorem lsystem_negative_level_witness:
  "(- 3 :: int) < 0 \<and> lsystem ''F-F'' (Map.empty(''F'' \<mapsto> ''FF'')) (- 3) = ''F-F''"
  using lsystem_negative_level [of "- 3" "''F-F''" "Map.empty(''F'' \<mapsto> ''FF'')"] by simp

subsection \<open>Grammar\<close>

lemma zip_slices:
  "zip (slice_even ts) (slice_odd ts) =
     map (\<lambda>i. (ts ! (2 * i), ts ! (2 * i + 1))) [0..<length ts div 2]"
proof (induction ts rule: slice_even.induct)
  case (3 x y xs)
  have "[0..<Suc (length xs div 2)] = 0 # map Suc [0..<length xs div 2]"
    by (simp add: upt_conv_Cons map_Suc_upt del: upt_Suc)
  then show ?case using 3 by (simp add: comp_def del: upt_Suc)
qed simp_all

lemma zip_slices_snoc:
  "even (length ts) \<Longrightarrow>
     zip (slice_even (ts @ [x])) (slice_odd (ts @ [x])) = zip (slice_even ts) (slice_odd ts)"
  by (induction ts rule: slice_even.induct) simp_all

text \<open>
  C7. When the rules string splits into an odd number of tokens, that is an even number
  of tokens \<open>ts\<close> followed by one more token \<open>x\<close>, \<^verbatim>\<open>make_rules\<close> returns the dict
  built from the pairs (token \<open>2i\<close>, token \<open>2i+1\<close>) of \<open>ts\<close>: the tokens are paired by
  position and the last, unpaired token \<open>x\<close> is dropped. The function has no error
  result.
\<close>

theorem make_rules_odd:
  assumes "str_split s = ts @ [x]" and "even (length ts)"
  shows "make_rules (Rules_str s) =
     dict_of (map (\<lambda>i. (ts ! (2 * i), ts ! (2 * i + 1))) [0..<length ts div 2]) Map.empty"
proof -
  have "zip (slice_even (str_split s)) (slice_odd (str_split s)) =
        zip (slice_even ts) (slice_odd ts)"
    using assms by (simp only: zip_slices_snoc)
  then show ?thesis by (simp only: make_rules.simps Let_def zip_slices)
qed

theorem make_rules_odd_witness:
  "str_split ''F F+F-F-F+F X'' = [''F'', ''F+F-F-F+F''] @ [''X'']
   \<and> even (length [''F'', ''F+F-F-F+F''])
   \<and> make_rules (Rules_str ''F F+F-F-F+F X'') = Map.empty(''F'' \<mapsto> ''F+F-F-F+F'')
   \<and> make_rules (Rules_str ''F F+F-F-F+F'') = Map.empty(''F'' \<mapsto> ''F+F-F-F+F'')"
proof -
  have a: "str_split ''F F+F-F-F+F X'' = [''F'', ''F+F-F-F+F''] @ [''X'']"
    by (simp add: str_split_def isspace_def)
  have b: "even (length [''F'', ''F+F-F-F+F''])" by simp
  have c: "str_split ''F F+F-F-F+F'' = [''F'', ''F+F-F-F+F'']"
    by (simp add: str_split_def isspace_def)
  show ?thesis using make_rules_odd [OF a b] a c by simp
qed

subsection \<open>Palette\<close>



subsection \<open>Escape and stack underflow\<close>

lemma loop_escape:
  "loop scr p (P @ CHR 0x5C # Q) s =
     (case loop scr p P s of
        Next s' \<Rightarrow> Break s' | Break s' \<Rightarrow> Break s' | Fault e s' \<Rightarrow> Fault e s')"
proof (induction P arbitrary: s)
  case Nil
  show ?case by (simp add: step_def isalpha_def decode_def)
next
  case (Cons c P)
  show ?case by (cases "step scr p c s") (simp_all add: Cons.IH)
qed

text \<open>
  C9. Running a command string \<open>P\<close>, a backslash, and any \<open>Q\<close> has the same result as
  running \<open>P\<close> alone: the same final state or exception, hence the same sequence of calls
  to the turtle and the canvas and the same stored frames.
\<close>

theorem escape_ends_run:
  "run scr p t (P @ CHR 0x5C # Q) = run scr p t P"
  by (simp add: run_def loop_escape split: sum.splits prod.splits outcome.splits)

text \<open>
  C8. Processing \<^verbatim>\<open>]\<close> in a state whose stack is empty goes on to the next symbol with
  the state, the stack and the turtle unchanged: no call is made and nothing is raised.
\<close>

theorem pop_empty_stack:
  "step scr p (CHR '']'') (s\<lparr>stack := []\<rparr>) = Next (s\<lparr>stack := []\<rparr>)"
  by (simp add: step_def isalpha_def decode_def)

subsection \<open>Frame capture\<close>

lemmas run_defs = run_def prologue_def epilogue_def step_def decode_def isalpha_def isupper_def
  lower_def upper_def gif_handler_def save_frame_def set_pensize_def set_color_def
  increment_color_def truthy_def call_log_def t_pensize_def t_pencolor_def t_fillcolor_def
  t_pendown_def t_penup_def t_forward_def t_left_def t_right_def t_speed_def t_setposition_def
  t_setheading_def orient_def screen0_def params0_def turtle0_def DEFAULT_COLORS_def Let_def
  tuple_list_def clamp_def digit_value_def





lemma set_color_frames [simp]:
  "draws (set_color c s) = draws s" "frames_attempted (set_color c s) = frames_attempted s"
  "gif_data (set_color c s) = gif_data s"
  by (simp_all add: set_color_def Let_def split: option.splits)

lemma increment_color_frames [simp]:
  "draws (increment_color p ch d s) = draws s"
  "frames_attempted (increment_color p ch d s) = frames_attempted s"
  "gif_data (increment_color p ch d s) = gif_data s"
  by (simp_all add: increment_color_def Let_def split: option.splits)



lemma save_frame_not_break: "save_frame scr p s \<noteq> Break s'"
  by (simp add: save_frame_def Let_def split: option.splits)

lemma gif_handler_not_break: "gif_handler scr p s \<noteq> Break s'"
  by (simp add: gif_handler_def Let_def save_frame_not_break)

lemma exec_break: "exec scr p cmd s = Break s' \<Longrightarrow> s' = s"
  by (cases cmd) (simp_all add: Let_def gif_handler_not_break split: if_splits list.splits)










subsection \<open>What the dispatch decodes\<close>

lemma char_eq_code: "(c = d) = ((of_char c :: nat) = of_char d)"
  by simp

lemmas decode_code = decode_def less_eq_char_def less_char_def char_eq_code

lemma decode_upper_code: "65 \<le> (of_char d :: nat) \<Longrightarrow> (of_char d :: nat) \<le> 90 \<Longrightarrow> decode [d] = Draw"
  by (simp add: decode_code del: of_char_eq_iff)

lemma decode_lower_code: "97 \<le> (of_char d :: nat) \<Longrightarrow> (of_char d :: nat) \<le> 122 \<Longrightarrow> decode [d] = Move"
  by (simp add: decode_code del: of_char_eq_iff)

lemma decode_high_code: "128 \<le> (of_char d :: nat) \<Longrightarrow> decode [d] = Ignore"
  by (simp add: decode_code del: of_char_eq_iff)

lemma decode_SS: "decode ''SS'' = Draw"
  by (simp add: decode_def)

lemma of_char_char_of: "n < 256 \<Longrightarrow> (of_char (char_of (n::nat)) :: nat) = n"
  by simp

lemma decode_alpha:
  assumes "isalpha c"
  shows "decode [c] \<in> {Draw, Move, Ignore}"
  using assms decode_upper_code [of c] decode_lower_code [of c] decode_high_code [of c]
  by (auto simp: isalpha_def Let_def)

lemma decode_swapped:
  assumes "isalpha c"
  shows "decode (if isupper c then lower c else upper c) \<in> {Draw, Move, Ignore}"
proof (cases "isupper c")
  case True
  let ?d = "char_of ((of_char c :: nat) + 32) :: char"
  have n: "(of_char ?d :: nat) = of_char c + 32"
    using True by (auto simp: isupper_def Let_def)
  have "decode [?d] \<in> {Draw, Move, Ignore}"
    using True n decode_lower_code [of ?d] decode_high_code [of ?d]
    by (auto simp: isupper_def Let_def)
  then show ?thesis using True by (simp add: lower_def)
next
  case False
  let ?d = "char_of ((of_char c :: nat) - 32) :: char"
  have n: "(of_char ?d :: nat) = of_char c - 32"
    by (simp add: less_imp_diff_less)
  have a1: "decode [?d] = Draw" if "97 \<le> (of_char c :: nat)" "(of_char c :: nat) \<le> 122"
  proof -
    have "65 \<le> (of_char ?d :: nat)" "(of_char ?d :: nat) \<le> 90" using that n by linarith+
    then show ?thesis by (rule decode_upper_code)
  qed
  have a2: "decode [?d] = Ignore" if "224 \<le> (of_char c :: nat)"
  proof -
    have "128 \<le> (of_char ?d :: nat)" using that n by linarith
    then show ?thesis by (rule decode_high_code)
  qed
  show ?thesis using False a1 a2 decode_alpha [OF assms] decode_SS
    by (auto simp: upper_def Let_def)
qed

lemma step_exec_cases:
  "\<exists>cmd. step scr p c s = exec scr p cmd s \<and> (cmd = decode [c] \<or> cmd = Draw \<or> cmd = Move \<or> cmd = Ignore)"
proof (cases "swap_cases s \<and> isalpha c")
  case True
  then show ?thesis using decode_swapped [of c] by (auto simp: step_def Let_def)
next
  case False
  then show ?thesis by (auto simp: step_def Let_def)
qed

lemma decode_inv:
  "decode x = Push \<Longrightarrow> x = ''[''"
  "decode x = Pop \<Longrightarrow> x = '']''"
  "decode x = Clear_cmd \<Longrightarrow> x = ''$''"
  "decode x = Escape \<Longrightarrow> x = [CHR 0x5C]"
  "decode x = Modify_fill \<Longrightarrow> x = ''#''"
  "decode x = Thickness_reset \<Longrightarrow> x = ''=''"
  "decode x = Thickness_inc \<Longrightarrow> x = ''>''"
  "decode x = Thickness_dec \<Longrightarrow> x = ''<''"
  "decode x = Digit n \<Longrightarrow> ''0'' \<le> x \<and> x \<le> ''9''"
  "decode x = Increment ch dec \<Longrightarrow> x \<in> {''.'', '','', '':'', '';'', ''!'', ''?''}"
  by (simp_all add: decode_def split: if_splits)

subsection \<open>Thickness\<close>

lemma pensizes_append [simp]: "pensizes (xs @ ys) = pensizes xs @ pensizes ys"
  by (induction xs rule: pensizes.induct) simp_all

lemmas turtle_defs = call_log_def t_pensize_def t_pencolor_def t_fillcolor_def
  t_pendown_def t_penup_def t_forward_def t_left_def t_right_def t_speed_def t_setposition_def
  t_setheading_def orient_def

lemma save_frame_widths:
  "widths (state_of (save_frame scr p s)) = widths s \<and> thickness (state_of (save_frame scr p s)) = thickness s"
  by (simp add: save_frame_def Let_def widths_def call_log_def split: option.splits)

lemma gif_handler_widths:
  "widths (state_of (gif_handler scr p s)) = widths s \<and> thickness (state_of (gif_handler scr p s)) = thickness s"
  using save_frame_widths [of scr p "s\<lparr>draws := draws s + 1\<rparr>"]
  by (simp add: gif_handler_def Let_def widths_def)

lemma set_color_widths:
  "widths (set_color c s) = widths s \<and> thickness (set_color c s) = thickness s"
  by (simp add: set_color_def Let_def widths_def turtle_defs split: option.splits)

lemma increment_color_widths:
  "widths (increment_color p ch d s) = widths s \<and> thickness (increment_color p ch d s) = thickness s"
  by (simp add: increment_color_def Let_def set_color_widths split: option.splits)

lemma exec_widths:
  assumes "cmd \<noteq> Thickness_reset" "cmd \<noteq> Thickness_inc" "cmd \<noteq> Thickness_dec"
  shows "widths (state_of (exec scr p cmd s)) = widths s \<and> thickness (state_of (exec scr p cmd s)) = thickness s"
proof (cases cmd)
  case Draw
  then show ?thesis using gif_handler_widths [of scr p] by (simp add: Let_def widths_def turtle_defs)
next
  case End_fill_cmd
  then show ?thesis using gif_handler_widths [of scr p] by (simp add: Let_def widths_def turtle_defs)
next
  case Dot_cmd
  then show ?thesis using gif_handler_widths [of scr p] by (simp add: Let_def widths_def turtle_defs split: option.splits)
next
  case (Digit n)
  then show ?thesis using set_color_widths by simp
next
  case (Increment ch d)
  then show ?thesis using increment_color_widths by simp
next
  case Pop
  then show ?thesis by (simp add: widths_def turtle_defs Let_def split: list.splits)
qed (use assms in \<open>simp_all add: widths_def turtle_defs Let_def\<close>)

lemma exec_break_cmd: "exec scr p cmd s = Break s' \<Longrightarrow> cmd = Escape"
  by (cases cmd) (simp_all add: Let_def gif_handler_not_break split: if_splits list.splits)

lemma step_break: "step scr p c s = Break s' \<Longrightarrow> c = CHR 0x5C \<and> s' = s"
proof -
  assume b: "step scr p c s = Break s'"
  obtain cmd where cmd: "step scr p c s = exec scr p cmd s"
      "cmd = decode [c] \<or> cmd = Draw \<or> cmd = Move \<or> cmd = Ignore"
    using step_exec_cases by blast
  then have "cmd = Escape" using b exec_break_cmd by metis
  then show ?thesis using cmd b decode_inv(4) [of "[c]"] exec_break [of scr p cmd s s'] by auto
qed

lemma step_escape: "step scr p (CHR 0x5C) s = Break s"
  by (simp add: step_def isalpha_def decode_def)

lemma step_thickness_symbols:
  "step scr p (CHR ''>'') s = Next (set_pensize (s\<lparr>thickness := thickness s + thickness_increment p\<rparr>))"
  "step scr p (CHR ''<'') s = Next (set_pensize (s\<lparr>thickness := thickness s - thickness_increment p\<rparr>))"
  "step scr p (CHR ''='') s = Next (set_pensize (s\<lparr>thickness := initial_thickness p\<rparr>))"
  by (simp_all add: step_def isalpha_def decode_def)

lemma set_pensize_widths:
  "pensizes (calls (turtle (set_pensize s))) = pensizes (calls (turtle s)) @ [max 0 (thickness s)]"
  "thickness (set_pensize s) = thickness s"
  by (simp_all add: set_pensize_def turtle_defs)

lemma step_other_widths:
  assumes "c \<noteq> CHR ''>''" "c \<noteq> CHR ''<''" "c \<noteq> CHR ''=''"
  shows "widths (state_of (step scr p c s)) = widths s \<and> thickness (state_of (step scr p c s)) = thickness s"
proof -
  obtain cmd where cmd: "step scr p c s = exec scr p cmd s"
      "cmd = decode [c] \<or> cmd = Draw \<or> cmd = Move \<or> cmd = Ignore"
    using step_exec_cases by blast
  have "cmd \<noteq> Thickness_reset" "cmd \<noteq> Thickness_inc" "cmd \<noteq> Thickness_dec"
    using cmd(2) assms decode_inv(6-8) [of "[c]"] by auto
  then show ?thesis using exec_widths cmd(1) by simp
qed

lemma step_widths:
  "thickness (state_of (step scr p c s)) =
     (if c = CHR ''>'' then thickness s + thickness_increment p
      else if c = CHR ''<'' then thickness s - thickness_increment p
      else if c = CHR ''='' then initial_thickness p else thickness s)"
  "widths (state_of (step scr p c s)) =
     widths s @ (if c \<in> set ''><='' then [max 0 (thickness (state_of (step scr p c s)))] else [])"
  using step_other_widths [of c scr p s]
  by (auto simp: step_thickness_symbols set_pensize_widths widths_def)

lemma loop_widths:
  "loop scr p cs s = Next s' \<or> loop scr p cs s = Break s' \<Longrightarrow>
     widths s' = widths s @ map (max 0) (spec_thickness p (thickness s) cs)"
proof (induction cs arbitrary: s)
  case Nil
  then show ?case by simp
next
  case (Cons c cs)
  show ?case
  proof (cases "step scr p c s")
    case (Next s1)
    then have ne: "c \<noteq> CHR 0x5C" using step_escape by auto
    have s1: "state_of (step scr p c s) = s1" using Next by simp
    have "widths s' = widths s1 @ map (max 0) (spec_thickness p (thickness s1) cs)"
      using Cons.IH [of s1] Cons.prems Next by simp
    then show ?thesis using step_widths [of scr p c s] ne unfolding s1 by auto
  next
    case (Break s1)
    then show ?thesis using step_break [OF Break] Cons.prems by simp
  next
    case (Fault e s1)
    then show ?thesis using Cons.prems by simp
  qed
qed

lemma prologue_widths:
  "prologue scr p t = Inr s \<Longrightarrow>
     widths s = pensizes (calls t) @ [max 0 (initial_thickness p)] \<and> thickness s = initial_thickness p"
  by (auto simp: prologue_def Let_def set_pensize_def widths_def turtle_defs save_frame_def
      split: if_splits option.splits)

lemma epilogue_widths:
  "epilogue scr p s = Returned s' \<Longrightarrow> widths s' = widths s"
  using save_frame_widths [of scr p s]
  by (auto simp: epilogue_def split: if_splits outcome.splits)

lemma run_widths:
  assumes "is_Returned (run scr p t cs)"
  shows "pensizes (calls (turtle (final (run scr p t cs)))) =
     pensizes (calls t) @ map (max 0) (initial_thickness p # spec_thickness p (initial_thickness p) cs)"
proof -
  obtain s where r: "run scr p t cs = Returned s" using assms by (cases "run scr p t cs") auto
  obtain s0 where s0: "prologue scr p t = Inr s0"
    using r by (cases "prologue scr p t") (auto simp: run_def)
  obtain s1 where s1: "loop scr p cs s0 = Next s1 \<or> loop scr p cs s0 = Break s1"
      and e: "epilogue scr p s1 = Returned s"
    using r s0 by (cases "loop scr p cs s0") (auto simp: run_def)
  show ?thesis
    using prologue_widths [OF s0] loop_widths [OF s1] epilogue_widths [OF e] r
    by (simp add: widths_def)
qed

text \<open>
  C6. The thickness evolves by unbounded arithmetic: \<^verbatim>\<open>>\<close> adds the thickness
  increment, \<^verbatim>\<open><\<close> subtracts it, \<^verbatim>\<open>=\<close> resets it to the initial thickness, and no
  other symbol changes it; the variable is not clamped and may be negative. A symbol
  passes a stroke width to the turtle exactly when it is one of these three, and the width
  passed is the maximum of 0 and the thickness just set. For a run that returns, the
  widths passed are, in order, the maximum of 0 and the initial thickness, then the
  maximum of 0 and each value that the unbounded thickness takes.
\<close>

theorem thickness_applied:
  "thickness (state_of (step scr p c s)) =
     (if c = CHR ''>'' then thickness s + thickness_increment p
      else if c = CHR ''<'' then thickness s - thickness_increment p
      else if c = CHR ''='' then initial_thickness p else thickness s)
   \<and> pensizes (calls (turtle (state_of (step scr p c s)))) =
       pensizes (calls (turtle s))
       @ (if c \<in> set ''><='' then [max 0 (thickness (state_of (step scr p c s)))] else [])
   \<and> (is_Returned (run scr p t cs) \<longrightarrow>
        pensizes (calls (turtle (final (run scr p t cs)))) =
          pensizes (calls t)
          @ map (max 0) (initial_thickness p # spec_thickness p (initial_thickness p) cs))"
  using step_widths [of scr p c s] run_widths [of scr p t cs] by (simp add: widths_def)

theorem thickness_applied_witness:
  "is_Returned (run screen0 params0 turtle0 ''<<>'')
   \<and> spec_thickness params0 (initial_thickness params0) ''<<>'' = [0, - 1, 0]
   \<and> pensizes (calls (turtle (final (run screen0 params0 turtle0 ''<<>'')))) = [1, 0, 0, 0]
   \<and> thickness (state_of (step screen0 params0 (CHR ''<'')
        (state_of (step screen0 params0 (CHR ''<'') (final (run screen0 params0 turtle0 [])))))) = - 1"
proof -
  have r: "is_Returned (run screen0 params0 turtle0 ''<<>'')" by (simp add: run_defs)
  have w: "spec_thickness params0 (initial_thickness params0) ''<<>'' = [0, - 1, 0]"
    by (simp add: params0_def)
  have t0: "thickness (final (run screen0 params0 turtle0 [])) = 1" by (simp add: run_defs)
  show ?thesis
    using thickness_applied [of screen0 params0 "CHR ''<''"
        "state_of (step screen0 params0 (CHR ''<'') (final (run screen0 params0 turtle0 [])))"
        turtle0 "''<<>''"]
      thickness_applied [of screen0 params0 "CHR ''<''" "final (run screen0 params0 turtle0 [])"
        turtle0 "''<<>''"] r w t0
    by (simp add: params0_def turtle0_def)
qed

subsection \<open>The modify-fill flag\<close>

lemma loop_append:
  "loop scr p (u @ v) s =
     (case loop scr p u s of Next s1 \<Rightarrow> loop scr p v s1 | Break s1 \<Rightarrow> Break s1 | Fault e s1 \<Rightarrow> Fault e s1)"
  by (induction u arbitrary: s) (simp_all split: outcome.splits)

lemma decode_digit:
  assumes "is_digit c"
  shows "decode [c] = Digit ((of_char c :: nat) - 48)" "\<not> isalpha c"
  using assms
   apply (simp_all add: is_digit_def decode_code digit_value_def isalpha_def Let_def del: of_char_eq_iff)
  apply linarith
  done

lemma step_digit:
  "is_digit c \<Longrightarrow> step scr p c s = exec scr p (Digit ((of_char c :: nat) - 48)) s"
  by (simp add: step_def decode_digit)

lemma step_increments:
  "step scr p (CHR ''.'') s = Next (increment_color p 0 False s)"
  "step scr p (CHR '','') s = Next (increment_color p 0 True s)"
  "step scr p (CHR '':'') s = Next (increment_color p 1 False s)"
  "step scr p (CHR '';'') s = Next (increment_color p 1 True s)"
  "step scr p (CHR ''!'') s = Next (increment_color p 2 False s)"
  "step scr p (CHR ''?'') s = Next (increment_color p 2 True s)"
  "step scr p (CHR ''#'') s = Next (s\<lparr>modify_fill := True\<rparr>)"
  by (simp_all add: step_def isalpha_def decode_def)

lemma set_color_fields:
  "pen_color (set_color c s) = (if modify_fill s then pen_color s else c)"
  "fill_color (set_color c s) = (if modify_fill s then c else fill_color s)"
  "modify_fill (set_color c s) = False"
  by (simp_all add: set_color_def Let_def split: option.splits)

lemma set_color_cols:
  "cols (set_color c s) = (if modify_fill s then (pen_color s, c, False) else (c, fill_color s, False))"
  by (simp add: set_color_fields cols_def)

lemma increment_color_eq:
  "increment_color p ch d s =
     (case (if modify_fill s then fill_color s else pen_color s) of
        None \<Rightarrow> s | Some col \<Rightarrow> set_color (Some (bump p ch d col)) s)"
  by (auto simp: increment_color_def bump_def Let_def split: option.splits)

lemma bump_simps:
  assumes "color_increments p = (ri, gi, bi)"
  shows "bump p 0 False (r, g, b) = (clamp (r + ri) 0 255, g, b)"
    "bump p 0 True (r, g, b) = (clamp (r - ri) 0 255, g, b)"
    "bump p 1 False (r, g, b) = (r, clamp (g + gi) 0 255, b)"
    "bump p 1 True (r, g, b) = (r, clamp (g - gi) 0 255, b)"
    "bump p 2 False (r, g, b) = (r, g, clamp (b + bi) 0 255)"
    "bump p 2 True (r, g, b) = (r, g, clamp (b - bi) 0 255)"
  using assms by (simp_all add: bump_def tuple_list_def Let_def)

lemma not_digit_incr:
  "\<not> is_digit (CHR ''.'')" "\<not> is_digit (CHR '','')" "\<not> is_digit (CHR '':'')"
  "\<not> is_digit (CHR '';'')" "\<not> is_digit (CHR ''!'')" "\<not> is_digit (CHR ''?'')"
  by (simp_all add: is_digit_def)

lemma spec_color_None: "\<not> is_digit c \<Longrightarrow> spec_color p c None = None"
  by (simp add: spec_color_def)

lemma spec_color_Some:
  assumes "color_increments p = (ri, gi, bi)"
  shows "spec_color p (CHR ''.'') (Some (r, g, b)) = Some (bump p 0 False (r, g, b))"
    "spec_color p (CHR '','') (Some (r, g, b)) = Some (bump p 0 True (r, g, b))"
    "spec_color p (CHR '':'') (Some (r, g, b)) = Some (bump p 1 False (r, g, b))"
    "spec_color p (CHR '';'') (Some (r, g, b)) = Some (bump p 1 True (r, g, b))"
    "spec_color p (CHR ''!'') (Some (r, g, b)) = Some (bump p 2 False (r, g, b))"
    "spec_color p (CHR ''?'') (Some (r, g, b)) = Some (bump p 2 True (r, g, b))"
  by (simp_all add: spec_color_def not_digit_incr bump_simps [OF assms] assms del: One_nat_def)

lemma spec_color_incr:
  "spec_color p (CHR ''.'') cur = map_option (bump p 0 False) cur"
  "spec_color p (CHR '','') cur = map_option (bump p 0 True) cur"
  "spec_color p (CHR '':'') cur = map_option (bump p 1 False) cur"
  "spec_color p (CHR '';'') cur = map_option (bump p 1 True) cur"
  "spec_color p (CHR ''!'') cur = map_option (bump p 2 False) cur"
  "spec_color p (CHR ''?'') cur = map_option (bump p 2 True) cur"
proof -
  obtain ri gi bi where i: "color_increments p = (ri, gi, bi)"
    by (cases "color_increments p") auto
  note sm = spec_color_Some [OF i] spec_color_None not_digit_incr
  show "spec_color p (CHR ''.'') cur = map_option (bump p 0 False) cur"
    by (cases cur) (auto simp: sm)
  show "spec_color p (CHR '','') cur = map_option (bump p 0 True) cur"
    by (cases cur) (auto simp: sm)
  show "spec_color p (CHR '':'') cur = map_option (bump p 1 False) cur"
    by (cases cur) (auto simp: sm)
  show "spec_color p (CHR '';'') cur = map_option (bump p 1 True) cur"
    by (cases cur) (auto simp: sm)
  show "spec_color p (CHR ''!'') cur = map_option (bump p 2 False) cur"
    by (cases cur) (auto simp: sm)
  show "spec_color p (CHR ''?'') cur = map_option (bump p 2 True) cur"
    by (cases cur) (auto simp: sm)
qed

lemma incr_cols:
  assumes "step scr p c s = Next (increment_color p ch d s)"
      and "\<And>cur. spec_color p c cur = map_option (bump p ch d) cur"
      and "\<not> is_digit c"
      and "step scr p c s = Next s1"
  shows "cols s1 =
     (if modify_fill s then
        (if is_digit c \<or> fill_color s \<noteq> None
         then (pen_color s, spec_color p c (fill_color s), False) else cols s)
      else (spec_color p c (pen_color s), fill_color s, False))"
proof -
  have "s1 = increment_color p ch d s" using assms(1,4) by simp
  then show ?thesis
    by (auto simp: increment_color_eq set_color_fields assms(2,3) cols_def split: option.splits)
qed

lemma step_color:
  assumes "color_symbol c" "step scr p c s = Next s1"
  shows "cols s1 =
     (if modify_fill s then
        (if is_digit c \<or> fill_color s \<noteq> None
         then (pen_color s, spec_color p c (fill_color s), False) else cols s)
      else (spec_color p c (pen_color s), fill_color s, False))"
proof (cases "is_digit c")
  case True
  then show ?thesis using assms(2)
    by (auto simp: step_digit set_color_cols spec_color_def split: if_splits)
next
  case False
  then consider "c = CHR ''.''" | "c = CHR '',''" | "c = CHR '':''" | "c = CHR '';''"
    | "c = CHR ''!''" | "c = CHR ''?''"
    using assms(1) by (auto simp: color_symbol_def)
  then show ?thesis
  proof cases
    case 1
    show ?thesis
      by (rule incr_cols [where ch = 0 and d = False, OF _ _ False assms(2)])
         (simp_all add: 1 step_increments spec_color_incr)
  next
    case 2
    show ?thesis
      by (rule incr_cols [where ch = 0 and d = True, OF _ _ False assms(2)])
         (simp_all add: 2 step_increments spec_color_incr)
  next
    case 3
    show ?thesis
      by (rule incr_cols [where ch = 1 and d = False, OF _ _ False assms(2)])
         (simp_all add: 3 step_increments spec_color_incr)
  next
    case 4
    show ?thesis
      by (rule incr_cols [where ch = 1 and d = True, OF _ _ False assms(2)])
         (simp_all add: 4 step_increments spec_color_incr)
  next
    case 5
    show ?thesis
      by (rule incr_cols [where ch = 2 and d = False, OF _ _ False assms(2)])
         (simp_all add: 5 step_increments spec_color_incr)
  next
    case 6
    show ?thesis
      by (rule incr_cols [where ch = 2 and d = True, OF _ _ False assms(2)])
         (simp_all add: 6 step_increments spec_color_incr)
  qed
qed

lemma save_frame_cols: "cols (state_of (save_frame scr p s)) = cols s"
  by (simp add: save_frame_def Let_def cols_def split: option.splits)

lemma gif_handler_cols: "cols (state_of (gif_handler scr p s)) = cols s"
  using save_frame_cols [of scr p "s\<lparr>draws := draws s + 1\<rparr>"]
  by (simp add: gif_handler_def Let_def cols_def)

lemma exec_cols:
  assumes "\<And>n. cmd \<noteq> Digit n" "\<And>ch d. cmd \<noteq> Increment ch d" "cmd \<noteq> Pop" "cmd \<noteq> Modify_fill"
  shows "cols (state_of (exec scr p cmd s)) = cols s"
proof (cases cmd)
  case Draw
  then show ?thesis using gif_handler_cols [of scr p] by (simp add: Let_def cols_def)
next
  case End_fill_cmd
  then show ?thesis using gif_handler_cols [of scr p] by (simp add: Let_def cols_def)
next
  case Dot_cmd
  then show ?thesis using gif_handler_cols [of scr p] by (simp add: Let_def cols_def split: option.splits)
qed (use assms in \<open>simp_all add: cols_def set_pensize_def\<close>)

lemma step_cols_other:
  assumes "\<not> color_symbol c" "c \<noteq> CHR '']''" "c \<noteq> CHR ''#''"
  shows "cols (state_of (step scr p c s)) = cols s"
proof -
  obtain cmd where cmd: "step scr p c s = exec scr p cmd s"
      "cmd = decode [c] \<or> cmd = Draw \<or> cmd = Move \<or> cmd = Ignore"
    using step_exec_cases by blast
  have "cmd \<noteq> Digit n" for n
    using cmd(2) assms(1) decode_inv(9) [of "[c]" n] by (auto simp: color_symbol_def is_digit_def)
  moreover have "cmd \<noteq> Increment ch d" for ch d
    using cmd(2) assms(1) decode_inv(10) [of "[c]" ch d] by (auto simp: color_symbol_def)
  moreover have "cmd \<noteq> Pop" "cmd \<noteq> Modify_fill"
    using cmd(2) assms(2,3) decode_inv(2,5) [of "[c]"] by auto
  ultimately show ?thesis using exec_cols cmd(1) by simp
qed

lemma loop_cols_plain:
  assumes "\<forall>c\<in>set v. \<not> color_symbol c \<and> c \<noteq> CHR '']'' \<and> c \<noteq> CHR ''#''"
  shows "loop scr p v s = Next s1 \<Longrightarrow> cols s1 = cols s"
  using assms
proof (induction v arbitrary: s)
  case Nil
  then show ?case by simp
next
  case (Cons c v)
  then obtain s2 where s2: "step scr p c s = Next s2" "loop scr p v s2 = Next s1"
    by (cases "step scr p c s") auto
  have "cols s2 = cols s" using step_cols_other [of c scr p s] Cons.prems(2) s2(1) by simp
  then show ?case using Cons.IH [OF s2(2)] Cons.prems(2) by simp
qed

lemma loop_cols_flagged:
  assumes "\<forall>c\<in>set u. \<not> color_symbol c \<and> c \<noteq> CHR '']''"
  shows "modify_fill s \<Longrightarrow> loop scr p u s = Next s1 \<Longrightarrow> cols s1 = cols s"
  using assms
proof (induction u arbitrary: s)
  case Nil
  then show ?case by simp
next
  case (Cons c u)
  then obtain s2 where s2: "step scr p c s = Next s2" "loop scr p u s2 = Next s1"
    by (cases "step scr p c s") auto
  have "cols s2 = cols s"
  proof (cases "c = CHR ''#''")
    case True
    then show ?thesis using s2(1) Cons.prems(1) by (auto simp: step_increments cols_def)
  next
    case False
    then show ?thesis using step_cols_other [of c scr p s] Cons.prems(3) s2(1) by simp
  qed
  moreover from this have "modify_fill s2" using Cons.prems(1) by (simp add: cols_def)
  ultimately show ?case using Cons.IH [OF _ s2(2)] Cons.prems(3) by simp
qed

lemma loop_append_Next:
  "loop scr p (u @ v) s = Next s' \<Longrightarrow> \<exists>s1. loop scr p u s = Next s1 \<and> loop scr p v s1 = Next s'"
  by (cases "loop scr p u s") (simp_all add: loop_append)

lemma loop_snoc_Next:
  "loop scr p u s = Next s1 \<Longrightarrow> step scr p c s1 = Next s2 \<Longrightarrow> loop scr p (u @ [c]) s = Next s2"
  by (simp add: loop_append)

text \<open>
  C4, as amended. \<^verbatim>\<open>#\<close> sets the modify-fill flag, and the flag stays set over symbols
  that are neither colour-affecting nor \<^verbatim>\<open>]\<close>. The next colour-affecting symbol \<open>c1\<close>
  then works on the fill colour, leaves the pen colour alone and clears the flag, provided
  that it is a palette digit or that the fill colour is set; after it, over symbols that
  are neither colour-affecting nor \<^verbatim>\<open>]\<close> nor \<^verbatim>\<open>#\<close>, the next colour-affecting symbol
  \<open>c2\<close> works on the pen colour. When \<open>c1\<close> is a channel increment or decrement and the
  fill colour is no-colour, nothing changes and the flag stays set.
\<close>

theorem modify_fill_single_use:
  assumes "color_symbol c1" and "color_symbol c2"
    and "\<forall>c\<in>set u. \<not> color_symbol c \<and> c \<noteq> CHR '']''"
    and "\<forall>c\<in>set v. \<not> color_symbol c \<and> c \<noteq> CHR '']'' \<and> c \<noteq> CHR ''#''"
    and "loop scr p (CHR ''#'' # u @ c1 # v @ [c2]) s = Next s'"
  shows "modify_fill (state_of (step scr p (CHR ''#'') s))
    \<and> modify_fill (state_of (loop scr p (CHR ''#'' # u) s))
    \<and> (is_digit c1 \<or> fill_color s \<noteq> None \<longrightarrow>
          fill_color (state_of (loop scr p (CHR ''#'' # u @ [c1]) s)) = spec_color p c1 (fill_color s)
        \<and> pen_color (state_of (loop scr p (CHR ''#'' # u @ [c1]) s)) = pen_color s
        \<and> \<not> modify_fill (state_of (loop scr p (CHR ''#'' # u @ [c1]) s))
        \<and> fill_color s' = spec_color p c1 (fill_color s)
        \<and> pen_color s' = spec_color p c2 (pen_color s)
        \<and> \<not> modify_fill s')
    \<and> (\<not> is_digit c1 \<and> fill_color s = None \<longrightarrow>
          fill_color (state_of (loop scr p (CHR ''#'' # u @ [c1]) s)) = None
        \<and> pen_color (state_of (loop scr p (CHR ''#'' # u @ [c1]) s)) = pen_color s
        \<and> modify_fill (state_of (loop scr p (CHR ''#'' # u @ [c1]) s)))"
proof -
  let ?sa = "s\<lparr>modify_fill := True\<rparr>"
  have a: "step scr p (CHR ''#'') s = Next ?sa" by (simp add: step_increments)
  have "loop scr p (u @ (c1 # v @ [c2])) ?sa = Next s'" using assms(5) a by simp
  then obtain sb where b: "loop scr p u ?sa = Next sb" and r1: "loop scr p (c1 # v @ [c2]) sb = Next s'"
    using loop_append_Next by blast
  from r1 obtain sc where c: "step scr p c1 sb = Next sc" and r2: "loop scr p (v @ [c2]) sc = Next s'"
    by (cases "step scr p c1 sb") auto
  from r2 obtain sd where d: "loop scr p v sc = Next sd" and r3: "loop scr p [c2] sd = Next s'"
    using loop_append_Next by blast
  from r3 have e: "step scr p c2 sd = Next s'" by (cases "step scr p c2 sd") auto
  have cb: "cols sb = (pen_color s, fill_color s, True)"
    using loop_cols_flagged [OF assms(3) _ b] by (simp add: cols_def)
  have cc: "cols sc =
     (if is_digit c1 \<or> fill_color s \<noteq> None
      then (pen_color s, spec_color p c1 (fill_color s), False) else (pen_color s, fill_color s, True))"
    using step_color [OF assms(1) c] cb by (simp add: cols_def)
  have cd: "cols sd = cols sc" using loop_cols_plain [OF assms(4) d] .
  have ce: "is_digit c1 \<or> fill_color s \<noteq> None \<Longrightarrow>
      cols s' = (spec_color p c2 (pen_color s), spec_color p c1 (fill_color s), False)"
    using step_color [OF assms(2) e] cd cc by (simp add: cols_def)
  have lb: "loop scr p (CHR ''#'' # u) s = Next sb" using a b by simp
  have lc: "loop scr p (CHR ''#'' # u @ [c1]) s = Next sc"
    using a loop_snoc_Next [OF b c] by simp
  have sa': "state_of (step scr p (CHR ''#'') s) = ?sa" by (simp only: a outcome.sel)
  have sb': "state_of (loop scr p (CHR ''#'' # u) s) = sb" by (simp only: lb outcome.sel)
  have sc': "state_of (loop scr p (CHR ''#'' # u @ [c1]) s) = sc" by (simp only: lc outcome.sel)
  show ?thesis unfolding sa' sb' sc' using cb cc ce by (auto simp: cols_def split: if_splits)
qed

subsection \<open>Save and restore\<close>

lemma step_push: "step scr p (CHR ''['') s = Next (s\<lparr>stack := snapshot s # stack s\<rparr>)"
  by (simp add: step_def isalpha_def decode_def snapshot_def)

lemma step_pop:
  "step scr p (CHR '']'') s = exec scr p Pop s"
  by (simp add: step_def isalpha_def decode_def)

lemma orient_pose:
  "pos (orient t (Some xy) (Some h)) = xy" "hdg (orient t (Some xy) (Some h)) = h"
  by (simp_all add: orient_def Let_def call_log_def t_pensize_def
      t_pendown_def t_penup_def t_speed_def t_setposition_def t_setheading_def)

lemma save_frame_stack: "stack (state_of (save_frame scr p s)) = stack s"
  by (simp add: save_frame_def Let_def split: option.splits)

lemma gif_handler_stack: "stack (state_of (gif_handler scr p s)) = stack s"
  using save_frame_stack [of scr p "s\<lparr>draws := draws s + 1\<rparr>"]
  by (simp add: gif_handler_def Let_def)

lemma set_color_stack: "stack (set_color c s) = stack s"
  by (simp add: set_color_def Let_def split: option.splits)

lemma increment_color_stack: "stack (increment_color p ch d s) = stack s"
  by (simp add: increment_color_def Let_def set_color_stack split: option.splits)

lemma exec_stack:
  assumes "cmd \<noteq> Push" "cmd \<noteq> Pop" "cmd \<noteq> Clear_cmd"
  shows "stack (state_of (exec scr p cmd s)) = stack s"
proof (cases cmd)
  case Draw
  then show ?thesis using gif_handler_stack [of scr p] by (simp add: Let_def)
next
  case End_fill_cmd
  then show ?thesis using gif_handler_stack [of scr p] by (simp add: Let_def)
next
  case Dot_cmd
  then show ?thesis using gif_handler_stack [of scr p] by (simp add: Let_def split: option.splits)
qed (use assms in \<open>simp_all add: set_pensize_def set_color_stack increment_color_stack\<close>)

lemma step_stack_other:
  assumes "c \<noteq> CHR ''[''" "c \<noteq> CHR '']''" "c \<noteq> CHR ''$''"
  shows "stack (state_of (step scr p c s)) = stack s"
proof -
  obtain cmd where cmd: "step scr p c s = exec scr p cmd s"
      "cmd = decode [c] \<or> cmd = Draw \<or> cmd = Move \<or> cmd = Ignore"
    using step_exec_cases by blast
  have "cmd \<noteq> Push" "cmd \<noteq> Pop" "cmd \<noteq> Clear_cmd"
    using cmd(2) assms decode_inv(1-3) [of "[c]"] by auto
  then show ?thesis using exec_stack cmd(1) by simp
qed

lemma loop_balanced_stack:
  "balanced n w \<Longrightarrow> CHR ''$'' \<notin> set w \<Longrightarrow> n \<le> length (stack s) \<Longrightarrow>
   loop scr p w s = Next s1 \<Longrightarrow> stack s1 = drop n (stack s)"
proof (induction w arbitrary: n s)
  case Nil
  then show ?case by simp
next
  case (Cons c w)
  obtain s2 where s2: "step scr p c s = Next s2" "loop scr p w s2 = Next s1"
    using Cons.prems(4) by (cases "step scr p c s") auto
  have nd: "CHR ''$'' \<notin> set w" "c \<noteq> CHR ''$''" using Cons.prems(2) by auto
  show ?case
  proof (cases "c = CHR ''[''")
    case True
    then have st: "stack s2 = snapshot s # stack s" using s2(1) by (auto simp: step_push)
    have "balanced (Suc n) w" using Cons.prems(1) True by simp
    then have "stack s1 = drop (Suc n) (stack s2)"
      using Cons.IH [of "Suc n" s2] nd(1) s2(2) Cons.prems(3) st by simp
    then show ?thesis using st by simp
  next
    case nb: False
    show ?thesis
    proof (cases "c = CHR '']''")
      case True
      then have n: "0 < n" "balanced (n - 1) w" using Cons.prems(1) by simp_all
      then obtain x rest where xs: "stack s = x # rest" using Cons.prems(3) by (cases "stack s") auto
      then have st: "stack s2 = rest" using s2(1) True by (auto simp: step_pop)
      have "stack s1 = drop (n - 1) (stack s2)"
        using Cons.IH [of "n - 1" s2] n(2) nd(1) s2(2) Cons.prems(3) st xs by simp
      then show ?thesis using st xs n(1) by (cases n) simp_all
    next
      case False
      then have st: "stack s2 = stack s"
        using step_stack_other [of c scr p s] nb nd(2) s2(1) by simp
      have "balanced n w" using Cons.prems(1) nb False by simp
      then show ?thesis using Cons.IH [of n s2] nd(1) s2(2) Cons.prems(3) st by simp
    qed
  qed
qed

text \<open>
  C1, as amended. For a region \<^verbatim>\<open>[\<close> \<open>w\<close> \<^verbatim>\<open>]\<close> whose body \<open>w\<close> is bracket-balanced
  and contains no \<^verbatim>\<open>$\<close>, if the interpreter processes the region to its end, then the
  state after the matching \<^verbatim>\<open>]\<close> equals the state before the \<^verbatim>\<open>[\<close> in position,
  heading, angle, length, pen colour, fill colour, swap-signs, swap-cases and modify-fill,
  and the stack is as it was.
\<close>

theorem push_pop_restores:
  assumes "balanced 0 w" and "CHR ''$'' \<notin> set w"
    and "loop scr p (CHR ''['' # w @ '']'') s = Next s'"
  shows "pos (turtle s') = pos (turtle s) \<and> hdg (turtle s') = hdg (turtle s)
    \<and> angle s' = angle s \<and> length' s' = length' s
    \<and> pen_color s' = pen_color s \<and> fill_color s' = fill_color s
    \<and> swap_signs s' = swap_signs s \<and> swap_cases s' = swap_cases s
    \<and> modify_fill s' = modify_fill s \<and> stack s' = stack s"
proof -
  let ?sa = "s\<lparr>stack := snapshot s # stack s\<rparr>"
  have "loop scr p (w @ '']'') ?sa = Next s'" using assms(3) by (simp add: step_push)
  then obtain sb where b: "loop scr p w ?sa = Next sb" and c: "loop scr p '']'' sb = Next s'"
    by (cases "loop scr p w ?sa") (simp_all add: loop_append)
  have "stack sb = drop 0 (stack ?sa)"
    using loop_balanced_stack [OF assms(1,2) _ b] by simp
  then have st: "stack sb = snapshot s # stack s" by simp
  have "step scr p (CHR '']'') sb = Next s'" using c by (cases "step scr p (CHR '']'') sb") auto
  then show ?thesis using st by (auto simp: step_pop snapshot_def orient_pose)
qed

end
